theory Spec2Isabelle
  imports Main "HOL-Library.Word"
begin

unbundle bit_operations_syntax

section \<open>Errors and the action model\<close>

text \<open>
  Every exception the modelled code can raise is a value. \<open>KeySequenceError\<close> is the
  parser's own exception class; \<open>RuntimeError\<close>, \<open>ValueError\<close>, \<open>IndexError\<close>,
  \<open>AttributeError\<close> and \<open>KeyError\<close> are Python's built-in ones; \<open>WinError\<close> is the
  \<^verbatim>\<open>ctypes.WinError\<close> raised by \<^verbatim>\<open>_check_count\<close>.
\<close>

datatype error =
    KeySequenceError string
  | RuntimeError string
  | ValueError
  | IndexError
  | AttributeError
  | KeyError
  | WinError

text \<open>
  The classes \<^verbatim>\<open>KeyAction\<close>, \<^verbatim>\<open>VirtualKeyAction\<close>, \<^verbatim>\<open>EscapedKeyAction\<close> and
  \<^verbatim>\<open>PauseAction\<close>. The first three carry \<^verbatim>\<open>key\<close>, \<^verbatim>\<open>down\<close> and \<^verbatim>\<open>up\<close> (in this
  order); a \<^verbatim>\<open>PauseAction\<close> has only \<^verbatim>\<open>how_long\<close>, a Python float, whose type is left
  open as \<open>'f\<close>. Notation strings are lists of 8-bit characters.
\<close>

datatype 'f action =
    KeyAction char bool bool
  | VirtualKeyAction int bool bool
  | EscapedKeyAction char bool bool
  | PauseAction 'f

section \<open>Static tables\<close>

definition VK_SHIFT :: int where "VK_SHIFT = 16"
definition VK_CONTROL :: int where "VK_CONTROL = 17"
definition VK_MENU :: int where "VK_MENU = 18"

definition CODES :: "(string \<times> int) list" where
  "CODES = [
    (''BACK'', 8), (''BACKSPACE'', 8), (''BKSP'', 8), (''BREAK'', 3), (''BS'', 8),
    (''CAP'', 20), (''CAPSLOCK'', 20), (''DEL'', 46), (''DELETE'', 46), (''DOWN'', 40),
    (''END'', 35), (''ENTER'', 13), (''ESC'', 27), (''F1'', 112), (''F2'', 113),
    (''F3'', 114), (''F4'', 115), (''F5'', 116), (''F6'', 117), (''F7'', 118),
    (''F8'', 119), (''F9'', 120), (''F10'', 121), (''F11'', 122), (''F12'', 123),
    (''F13'', 124), (''F14'', 125), (''F15'', 126), (''F16'', 127), (''F17'', 128),
    (''F18'', 129), (''F19'', 130), (''F20'', 131), (''F21'', 132), (''F22'', 133),
    (''F23'', 134), (''F24'', 135), (''HELP'', 47), (''HOME'', 36), (''INS'', 45),
    (''INSERT'', 45), (''LEFT'', 37), (''LWIN'', 91), (''NUMLOCK'', 144), (''PGDN'', 34),
    (''PGUP'', 33), (''PRTSC'', 44), (''RIGHT'', 39), (''RMENU'', 165), (''RWIN'', 92),
    (''SCROLLLOCK'', 145), (''SPACE'', 32), (''TAB'', 9), (''UP'', 38),
    (''VK_ACCEPT'', 30), (''VK_ADD'', 107), (''VK_APPS'', 93), (''VK_ATTN'', 246),
    (''VK_BACK'', 8), (''VK_CANCEL'', 3), (''VK_CAPITAL'', 20), (''VK_CLEAR'', 12),
    (''VK_CONTROL'', 17), (''VK_CONVERT'', 28), (''VK_CRSEL'', 247), (''VK_DECIMAL'', 110),
    (''VK_DELETE'', 46), (''VK_DIVIDE'', 111), (''VK_DOWN'', 40), (''VK_END'', 35),
    (''VK_EREOF'', 249), (''VK_ESCAPE'', 27), (''VK_EXECUTE'', 43), (''VK_EXSEL'', 248),
    (''VK_F1'', 112), (''VK_F2'', 113), (''VK_F3'', 114), (''VK_F4'', 115),
    (''VK_F5'', 116), (''VK_F6'', 117), (''VK_F7'', 118), (''VK_F8'', 119),
    (''VK_F9'', 120), (''VK_F10'', 121), (''VK_F11'', 122), (''VK_F12'', 123),
    (''VK_F13'', 124), (''VK_F14'', 125), (''VK_F15'', 126), (''VK_F16'', 127),
    (''VK_F17'', 128), (''VK_F18'', 129), (''VK_F19'', 130), (''VK_F20'', 131),
    (''VK_F21'', 132), (''VK_F22'', 133), (''VK_F23'', 134), (''VK_F24'', 135),
    (''VK_FINAL'', 24), (''VK_HANGEUL'', 21), (''VK_HANGUL'', 21), (''VK_HANJA'', 25),
    (''VK_HELP'', 47), (''VK_HOME'', 36), (''VK_INSERT'', 45), (''VK_JUNJA'', 23),
    (''VK_KANA'', 21), (''VK_KANJI'', 25), (''VK_LBUTTON'', 1), (''VK_LCONTROL'', 162),
    (''VK_LEFT'', 37), (''VK_LMENU'', 164), (''VK_LSHIFT'', 160), (''VK_LWIN'', 91),
    (''VK_MBUTTON'', 4), (''VK_MENU'', 18), (''VK_MODECHANGE'', 31),
    (''VK_MULTIPLY'', 106), (''VK_NEXT'', 34), (''VK_NONAME'', 252),
    (''VK_NONCONVERT'', 29), (''VK_NUMLOCK'', 144), (''VK_NUMPAD0'', 96),
    (''VK_NUMPAD1'', 97), (''VK_NUMPAD2'', 98), (''VK_NUMPAD3'', 99),
    (''VK_NUMPAD4'', 100), (''VK_NUMPAD5'', 101), (''VK_NUMPAD6'', 102),
    (''VK_NUMPAD7'', 103), (''VK_NUMPAD8'', 104), (''VK_NUMPAD9'', 105),
    (''VK_OEM_CLEAR'', 254), (''VK_PA1'', 253), (''VK_PAUSE'', 19), (''VK_PLAY'', 250),
    (''VK_PRINT'', 42), (''VK_PRIOR'', 33), (''VK_PROCESSKEY'', 229), (''VK_RBUTTON'', 2),
    (''VK_RCONTROL'', 163), (''VK_RETURN'', 13), (''VK_RIGHT'', 39), (''VK_RMENU'', 165),
    (''VK_RSHIFT'', 161), (''VK_RWIN'', 92), (''VK_SCROLL'', 145), (''VK_SELECT'', 41),
    (''VK_SEPARATOR'', 108), (''VK_SHIFT'', 16), (''VK_SNAPSHOT'', 44), (''VK_SPACE'', 32),
    (''VK_SUBTRACT'', 109), (''VK_TAB'', 9), (''VK_UP'', 38), (''ZOOM'', 251)]"

definition MODIFIERS :: "(char \<times> int) list" where
  "MODIFIERS = [(CHR ''+'', VK_SHIFT), (CHR ''^'', VK_CONTROL), (CHR ''%'', VK_MENU)]"

definition ascii_uppercase :: string where
  "ascii_uppercase = ''ABCDEFGHIJKLMNOPQRSTUVWXYZ''"

definition ascii_lowercase :: string where
  "ascii_lowercase = ''abcdefghijklmnopqrstuvwxyz''"

definition digits :: string where
  "digits = ''0123456789''"

text \<open>
  \<^verbatim>\<open>str.upper\<close> and \<^verbatim>\<open>str.lower\<close> on one character, for the ASCII letters. The parser
  uses \<^verbatim>\<open>lower\<close> only to look for the substrings \<^verbatim>\<open>" up"\<close> and \<^verbatim>\<open>" down"\<close>, and no
  character outside ASCII is lowered to one of their characters.
\<close>

definition upper_chr :: "char \<Rightarrow> char" where
  "upper_chr c = (case map_of (zip ascii_lowercase ascii_uppercase) c of Some u \<Rightarrow> u | None \<Rightarrow> c)"

definition lower_chr :: "char \<Rightarrow> char" where
  "lower_chr c = (case map_of (zip ascii_uppercase ascii_lowercase) c of Some l \<Rightarrow> l | None \<Rightarrow> c)"

text \<open>The dictionary \<^verbatim>\<open>ascii_vk\<close>: the literal, then the two \<^verbatim>\<open>update\<close> calls.\<close>

definition ascii_vk :: "char \<rightharpoonup> int" where
  "ascii_vk =
     map_of [(CHR '' '', 0x20), (CHR ''='', 0xBB), (CHR '','', 0xBC), (CHR ''-'', 0xBD),
             (CHR ''.'', 0xBE), (CHR '';'', 0xBA), (CHR ''/'', 0xBF), (CHR 0x60, 0xC0),
             (CHR ''['', 0xDB), (CHR 0x5C, 0xDC), (CHR '']'', 0xDD), (CHR 0x27, 0xDE)]
     ++ map_of (map (\<lambda>c. (c, of_char c)) (ascii_uppercase @ digits))
     ++ map_of (map (\<lambda>c. (c, of_char (upper_chr c))) ascii_lowercase)"

section \<open>Python's string operations\<close>

text \<open>
  \<open>find_chr c s\<close> is \<^verbatim>\<open>s.find(c)\<close> (\<open>None\<close> for \<open>-1\<close>), \<open>contains sub s\<close> is
  \<^verbatim>\<open>sub in s\<close>, \<open>split_chr sep s\<close> is \<^verbatim>\<open>s.split(sep)\<close> for a one-character separator,
  \<open>rsplit1 s\<close> is \<^verbatim>\<open>s.rsplit(None, 1)\<close>, \<open>strip\<close> and \<open>rstrip\<close> remove white space,
  and \<open>py_int\<close> is \<^verbatim>\<open>int(s)\<close> in base 10 (\<open>None\<close> where Python raises \<^verbatim>\<open>ValueError\<close>):
  an optional sign, then digits that single underscores may separate.
\<close>

definition find_chr :: "char \<Rightarrow> string \<Rightarrow> nat option" where
  "find_chr c s = (if c \<in> set s then Some (length (takeWhile (\<lambda>x. x \<noteq> c) s)) else None)"

fun contains :: "string \<Rightarrow> string \<Rightarrow> bool" where
  "contains sub [] = (sub = [])"
| "contains sub (x # xs) = (take (length sub) (x # xs) = sub \<or> contains sub xs)"

fun split_chr :: "char \<Rightarrow> string \<Rightarrow> string list" where
  "split_chr sep [] = [[]]"
| "split_chr sep (x # xs) =
     (if x = sep then [] # split_chr sep xs
      else (case split_chr sep xs of
              [] \<Rightarrow> [[x]]
            | p # ps \<Rightarrow> (x # p) # ps))"

definition isspace :: "char \<Rightarrow> bool" where
  "isspace c = (let n = (of_char c :: nat) in
      (9 \<le> n \<and> n \<le> 13) \<or> (28 \<le> n \<and> n \<le> 32) \<or> n = 133 \<or> n = 160)"

definition rstrip :: "string \<Rightarrow> string" where
  "rstrip s = rev (dropWhile isspace (rev s))"

definition strip :: "string \<Rightarrow> string" where
  "strip s = dropWhile isspace (rstrip s)"

definition rsplit1 :: "string \<Rightarrow> string list" where
  "rsplit1 s =
     (let s1 = rstrip s in
      if s1 = [] then []
      else let word = rev (takeWhile (\<lambda>c. \<not> isspace c) (rev s1));
               front = rstrip (rev (dropWhile (\<lambda>c. \<not> isspace c) (rev s1)))
           in if front = [] then [word] else [front, word])"

definition isdigit :: "char \<Rightarrow> bool" where
  "isdigit c = (c \<in> set digits)"

fun digits_ok :: "string \<Rightarrow> bool" where
  "digits_ok [] = False"
| "digits_ok [c] = isdigit c"
| "digits_ok (c # d # cs) =
     (isdigit c \<and> (if d = CHR ''_'' then digits_ok cs else digits_ok (d # cs)))"

definition digits_value :: "string \<Rightarrow> int" where
  "digits_value s =
     foldl (\<lambda>acc c. 10 * acc + (of_char c - 48)) 0 (filter (\<lambda>c. c \<noteq> CHR ''_'') s)"

definition py_int :: "string \<Rightarrow> int option" where
  "py_int s =
     (let t = strip s in
      case t of
        [] \<Rightarrow> None
      | c # cs \<Rightarrow>
          if c = CHR ''-'' then (if digits_ok cs then Some (- digits_value cs) else None)
          else if c = CHR ''+'' then (if digits_ok cs then Some (digits_value cs) else None)
          else (if digits_ok t then Some (digits_value t) else None))"

fun str_nat :: "nat \<Rightarrow> string" where
  "str_nat n = (if n < 10 then [digits ! n] else str_nat (n div 10) @ [digits ! (n mod 10)])"

section \<open>The key-sequence compiler\<close>

text \<open>
  The release loop \<^verbatim>\<open>while modifiers: keys.append(VirtualKeyAction(modifiers.pop(),
  down=False))\<close> pops from the end of the list, so it appends the releases in the reverse
  order of the holds and leaves the list empty.
\<close>

definition release_modifiers :: "int list \<Rightarrow> 'f action list" where
  "release_modifiers modifiers = map (\<lambda>m. VirtualKeyAction m False True) (rev modifiers)"

text \<open>The last branch of the loop body: the action of a normal character.\<close>

definition plain_key :: "char \<Rightarrow> int list \<Rightarrow> bool \<Rightarrow> bool \<Rightarrow> error + 'f action" where
  "plain_key c modifiers should_escape_next_keys vk_packet =
     (if c = CHR ''~'' \<or> c = CHR 0x0A then
        (case map_of CODES ''ENTER'' of
           None \<Rightarrow> Inl KeyError
         | Some v \<Rightarrow> Inr (VirtualKeyAction v True True))
      else if modifiers \<noteq> [] \<or> should_escape_next_keys then Inr (EscapedKeyAction c True True)
      else
        (case (if vk_packet then None else ascii_vk c) of
           Some v \<Rightarrow> Inr (VirtualKeyAction v True True)
         | None \<Rightarrow> Inr (KeyAction c True True)))"

text \<open>
  The qualifier of \<^verbatim>\<open>{NAME down}\<close> or \<^verbatim>\<open>{NAME up}\<close>, applied to \<^verbatim>\<open>current_keys[0]\<close>: an
  action whose key is a string is replaced by a fresh \<^verbatim>\<open>EscapedKeyAction\<close> of that key;
  then \<^verbatim>\<open>down\<close> is cleared when the stripped qualifier is exactly \<^verbatim>\<open>up\<close>, and \<^verbatim>\<open>up\<close>
  is cleared otherwise. A \<^verbatim>\<open>PauseAction\<close> has no attribute \<^verbatim>\<open>key\<close>.
\<close>

definition set_key_event :: "string \<Rightarrow> 'f action list \<Rightarrow> error + 'f action list" where
  "set_key_event current_key_event current_keys =
     (case current_keys of
        [] \<Rightarrow> Inl IndexError
      | k # ks \<Rightarrow>
          (case k of
             PauseAction t \<Rightarrow> Inl AttributeError
           | KeyAction c d u \<Rightarrow>
               Inr ((if strip current_key_event = ''up'' then EscapedKeyAction c False True
                     else EscapedKeyAction c True False) # ks)
           | EscapedKeyAction c d u \<Rightarrow>
               Inr ((if strip current_key_event = ''up'' then EscapedKeyAction c False True
                     else EscapedKeyAction c True False) # ks)
           | VirtualKeyAction v d u \<Rightarrow>
               Inr ((if strip current_key_event = ''up'' then VirtualKeyAction v False u
                     else VirtualKeyAction v d False) # ks)))"

lemma split_chr_hd_length: "split_chr sep s = a # ps \<Longrightarrow> length a \<le> length s"
  by (induction s arbitrary: a ps) (auto split: if_splits list.splits)

lemma length_rstrip: "length (rstrip s) \<le> length s"
  by (simp add: rstrip_def length_dropWhile_le order_trans[OF length_dropWhile_le])

lemma rsplit1_front_length: "rsplit1 s = [a, b] \<Longrightarrow> length a \<le> length s"
proof -
  assume h: "rsplit1 s = [a, b]"
  have "length (rstrip (rev (dropWhile (\<lambda>c. \<not> isspace c) (rev (rstrip s))))) \<le> length s"
    using length_rstrip[of "rev (dropWhile (\<lambda>c. \<not> isspace c) (rev (rstrip s)))"]
      length_dropWhile_le[of "\<lambda>c. \<not> isspace c" "rev (rstrip s)"] length_rstrip[of s]
    by simp
  with h show ?thesis
    by (auto simp: rsplit1_def Let_def split: if_splits)
qed

text \<open>
  \<^verbatim>\<open>parse_keys\<close> and \<^verbatim>\<open>handle_code\<close> call each other. The state of the \<^verbatim>\<open>while\<close> loop
  is the part of the string from \<^verbatim>\<open>index\<close> on, the list \<^verbatim>\<open>keys\<close>, the list
  \<^verbatim>\<open>modifiers\<close> and the flag \<^verbatim>\<open>should_escape_next_keys\<close>; \<open>parse_loop\<close> is the loop,
  with the release loop that follows it. \<^verbatim>\<open>string.find(")", index)\<close> is a position in
  that rest, and \<^verbatim>\<open>string.find("}", index + 1)\<close> skips its first character.

  The recursive call for a group passes the caller's list \<^verbatim>\<open>modifiers\<close>. An empty list
  is false in Python, so the callee replaces it by a list of its own
  (\<^verbatim>\<open>if not modifiers: modifiers = []\<close>) and the caller's list stays empty; a list that
  is not empty is shared, and the caller sees what the callee leaves in it. So
  \<open>parse_keys_aux\<close> returns, with the keys, the caller's list as it is after the call.
  The recursive calls pass neither \<^verbatim>\<open>with_spaces\<close>, \<^verbatim>\<open>with_tabs\<close> nor
  \<^verbatim>\<open>with_newlines\<close>: they are \<open>False\<close> there. \<open>float\<close> stands for Python's \<^verbatim>\<open>float\<close>
  on strings (\<open>None\<close> where it raises \<^verbatim>\<open>ValueError\<close>).
\<close>

function parse_keys_aux ::
    "(string \<Rightarrow> 'f option) \<Rightarrow> string \<Rightarrow> bool \<Rightarrow> bool \<Rightarrow> bool \<Rightarrow> int list \<Rightarrow> bool
       \<Rightarrow> error + ('f action list \<times> int list)"
  and parse_loop ::
    "(string \<Rightarrow> 'f option) \<Rightarrow> bool \<Rightarrow> bool \<Rightarrow> bool \<Rightarrow> bool \<Rightarrow> string
       \<Rightarrow> 'f action list \<Rightarrow> int list \<Rightarrow> bool \<Rightarrow> error + ('f action list \<times> int list)"
  and handle_code ::
    "(string \<Rightarrow> 'f option) \<Rightarrow> string \<Rightarrow> bool \<Rightarrow> error + 'f action list"
where
  "parse_keys_aux float string with_spaces with_tabs with_newlines modifiers vk_packet =
     (case parse_loop float with_spaces with_tabs with_newlines vk_packet string [] modifiers False of
        Inl e \<Rightarrow> Inl e
      | Inr (keys, modifiers') \<Rightarrow> Inr (keys, if modifiers = [] then [] else modifiers'))"
| "parse_loop float with_spaces with_tabs with_newlines vk_packet [] keys modifiers
       should_escape_next_keys =
     Inr (keys @ release_modifiers modifiers, [])"
| "parse_loop float with_spaces with_tabs with_newlines vk_packet (c # rest) keys modifiers
       should_escape_next_keys =
     (case map_of MODIFIERS c of
        Some modifier \<Rightarrow>
          parse_loop float with_spaces with_tabs with_newlines vk_packet rest
            (keys @ [VirtualKeyAction modifier True False]) (modifiers @ [modifier])
            should_escape_next_keys
      | None \<Rightarrow>
          if c = CHR ''('' then
            (case find_chr (CHR '')'') rest of
               None \<Rightarrow> Inl (KeySequenceError ''`)` not found'')
             | Some end_pos \<Rightarrow>
                 (case parse_keys_aux float (take end_pos rest) False False False modifiers
                         vk_packet of
                    Inl e \<Rightarrow> Inl e
                  | Inr (sub_keys, modifiers') \<Rightarrow>
                      parse_loop float with_spaces with_tabs with_newlines vk_packet
                        (drop (Suc end_pos) rest)
                        (keys @ sub_keys @ release_modifiers modifiers') []
                        should_escape_next_keys))
          else if c = CHR ''{'' then
            (case find_chr (CHR ''}'') (drop 1 rest) of
               None \<Rightarrow> Inl (KeySequenceError ''`}` not found'')
             | Some p \<Rightarrow>
                 if contains '' up'' (map lower_chr (take (Suc p) rest))
                    \<or> contains '' down'' (map lower_chr (take (Suc p) rest)) then
                   (case split_chr (CHR '' '') (take (Suc p) rest) of
                      [code, current_key_event] \<Rightarrow>
                        (case handle_code float code vk_packet of
                           Inl e \<Rightarrow> Inl e
                         | Inr current_keys \<Rightarrow>
                             (case set_key_event current_key_event current_keys of
                                Inl e \<Rightarrow> Inl e
                              | Inr current_keys' \<Rightarrow>
                                  parse_loop float with_spaces with_tabs with_newlines vk_packet
                                    (drop (Suc (Suc p)) rest)
                                    (keys @ current_keys' @ release_modifiers modifiers) []
                                    True))
                    | _ \<Rightarrow> Inl ValueError)
                 else
                   (case handle_code float (take (Suc p) rest) vk_packet of
                      Inl e \<Rightarrow> Inl e
                    | Inr current_keys \<Rightarrow>
                        parse_loop float with_spaces with_tabs with_newlines vk_packet
                          (drop (Suc (Suc p)) rest)
                          (keys @ current_keys @ release_modifiers modifiers) []
                          should_escape_next_keys))
          else if c = CHR '')'' then Inl (KeySequenceError ''`)` should be preceeded by `(`'')
          else if c = CHR ''}'' then Inl (KeySequenceError ''`}` should be preceeded by `{`'')
          else if (c = CHR '' '' \<and> \<not> with_spaces) \<or> (c = CHR 0x09 \<and> \<not> with_tabs)
                  \<or> (c = CHR 0x0A \<and> \<not> with_newlines) then
            parse_loop float with_spaces with_tabs with_newlines vk_packet rest keys modifiers
              should_escape_next_keys
          else
            (case plain_key c modifiers should_escape_next_keys vk_packet of
               Inl e \<Rightarrow> Inl e
             | Inr k \<Rightarrow>
                 parse_loop float with_spaces with_tabs with_newlines vk_packet rest
                   (keys @ [k] @ release_modifiers modifiers) [] should_escape_next_keys))"
| "handle_code float code vk_packet =
     (case map_of CODES code of
        Some v \<Rightarrow> Inr [VirtualKeyAction v True True]
      | None \<Rightarrow>
          if length code = 1 then
            (case (if vk_packet then None else ascii_vk (hd code)) of
               Some v \<Rightarrow> Inr [VirtualKeyAction v True True]
             | None \<Rightarrow> Inr [KeyAction (hd code) True True])
          else if CHR '' '' \<in> set code then
            (case rsplit1 code of
               [to_repeat, count] \<Rightarrow>
                 if to_repeat = ''PAUSE'' then
                   (case float count of
                      None \<Rightarrow> Inl (KeySequenceError (''invalid pause time '' @ count))
                    | Some pause_time \<Rightarrow> Inr [PauseAction pause_time])
                 else
                   (case py_int count of
                      None \<Rightarrow> Inl (KeySequenceError (''invalid repetition count '' @ count))
                    | Some n \<Rightarrow>
                        (case map_of CODES to_repeat of
                           Some v \<Rightarrow> Inr (replicate (nat n) (VirtualKeyAction v True True))
                         | None \<Rightarrow>
                             (case parse_keys_aux float to_repeat False False False [] vk_packet of
                                Inl e \<Rightarrow> Inl e
                              | Inr (keys, ms) \<Rightarrow> Inr (concat (replicate (nat n) keys)))))
             | _ \<Rightarrow> Inl ValueError)
          else Inl (RuntimeError (''Unknown code: '' @ code)))"
  by pat_completeness auto
termination
  apply (relation "measure (\<lambda>x. case x of
           Inl (f, s, r) \<Rightarrow> 3 * length s + 2
         | Inr (Inl (f, a, b, c, d, s, r)) \<Rightarrow> 3 * length s + 1
         | Inr (Inr (f, s, r)) \<Rightarrow> 3 * length s + 3)")
  apply (auto simp: min_def dest!: split_chr_hd_length rsplit1_front_length split: if_splits)
  done

text \<open>The function as its callers use it: \<^verbatim>\<open>modifiers=None\<close>, and the keys returned.\<close>

definition parse_keys ::
    "(string \<Rightarrow> 'f option) \<Rightarrow> string \<Rightarrow> bool \<Rightarrow> bool \<Rightarrow> bool \<Rightarrow> bool \<Rightarrow> error + 'f action list" where
  "parse_keys float string with_spaces with_tabs with_newlines vk_packet =
     (case parse_keys_aux float string with_spaces with_tabs with_newlines [] vk_packet of
        Inl e \<Rightarrow> Inl e
      | Inr (keys, ms) \<Rightarrow> Inr keys)"

section \<open>The operating system and the events sent to it\<close>

definition KEYEVENTF_EXTENDEDKEY :: int where "KEYEVENTF_EXTENDEDKEY = 1"
definition KEYEVENTF_KEYUP :: int where "KEYEVENTF_KEYUP = 2"
definition KEYEVENTF_UNICODE :: int where "KEYEVENTF_UNICODE = 4"
definition INPUT_KEYBOARD :: int where "INPUT_KEYBOARD = 1"
definition WM_KEYDOWN :: int where "WM_KEYDOWN = 0x0100"
definition WM_KEYUP :: int where "WM_KEYUP = 0x0101"
definition WM_SYSKEYDOWN :: int where "WM_SYSKEYDOWN = 0x0104"
definition WM_SYSKEYUP :: int where "WM_SYSKEYUP = 0x0105"
definition WM_ACTIVATE :: int where "WM_ACTIVATE = 0x0006"
definition WA_ACTIVE :: int where "WA_ACTIVE = 1"

text \<open>
  The keyboard part of an \<^verbatim>\<open>INPUT\<close> structure (\<^verbatim>\<open>wVk\<close> and \<^verbatim>\<open>wScan\<close> are 16-bit
  fields, \<^verbatim>\<open>dwFlags\<close> a 32-bit one), a keyboard state of 256 bytes, indexed by the
  virtual-key code, and the calls that reach the operating system, in the order in which
  they are made. \<open>Sleep_ms\<close> is \<^verbatim>\<open>time.sleep\<close>, in milliseconds; \<open>ForceActivateWindow\<close> and
  \<open>DeactivateTopmost\<close> stand for the calls of the window helpers of these names.

  The record \<open>os\<close> holds what the operating system answers. The answer of \<^verbatim>\<open>SendInput\<close>
  may depend on all the calls made before it.
\<close>

record keybd_input =
  input_type :: int
  wVk :: "16 word"
  wScan :: "16 word"
  dwFlags :: "32 word"
  dwExtraInfo :: int

type_synonym snapshot = "8 word \<Rightarrow> 8 word"

datatype event =
    SendInputCall "keybd_input list"
  | Sleep_ms nat
  | SendMessageACall int int int int
  | SendMessageCall int int int int
  | EnableWindowCall int bool
  | ForceActivateWindow int
  | AttachThreadInputCall int int bool
  | Warn string
  | Print string
  | SetKeyboardStateCall snapshot
  | PostMessageCall int int int int
  | DeactivateTopmost int

record os =
  MapVirtualKeyW :: "int \<Rightarrow> int \<Rightarrow> int"
  MapVirtualKeyExW :: "int \<Rightarrow> int \<Rightarrow> int \<Rightarrow> int"
  VkKeyScanW :: "char \<Rightarrow> int"
  VkKeyScanExW :: "char \<Rightarrow> int \<Rightarrow> int"
  GetMessageExtraInfo :: int
  SendInput :: "event list \<Rightarrow> keybd_input list \<Rightarrow> nat"
  GetWindowThreadProcessId :: "int \<Rightarrow> int"
  GetCurrentThreadId :: int
  AttachThreadInput :: "int \<Rightarrow> int \<Rightarrow> bool \<Rightarrow> int"
  GetKeyboardState :: snapshot
  GetKeyboardLayout :: "int \<Rightarrow> int"

definition LoByte :: "int \<Rightarrow> int" where
  "LoByte val = val AND 0xFF"

text \<open>
  The method \<^verbatim>\<open>_get_key_info\<close> of each class: virtual key, scan code and flags. A
  \<^verbatim>\<open>PauseAction\<close> inherits the method of \<^verbatim>\<open>KeyAction\<close>, which reads \<^verbatim>\<open>self.key\<close>, an
  attribute that a \<^verbatim>\<open>PauseAction\<close> does not have.
\<close>

fun get_key_info :: "os \<Rightarrow> 'f action \<Rightarrow> error + (int \<times> int \<times> int)" where
  "get_key_info os (KeyAction key down up) = Inr (0, of_char key, KEYEVENTF_UNICODE)"
| "get_key_info os (VirtualKeyAction key down up) =
     Inr (key, MapVirtualKeyW os key 0,
          if (33 \<le> key \<and> key \<le> 46) \<or> (91 \<le> key \<and> key \<le> 93) then KEYEVENTF_EXTENDEDKEY else 0)"
| "get_key_info os (EscapedKeyAction key down up) =
     (let vkey_scan = LoByte (VkKeyScanW os key)
      in Inr (vkey_scan, MapVirtualKeyW os vkey_scan 0, 0))"
| "get_key_info os (PauseAction how_long) = Inl AttributeError"

section \<open>The global injection path\<close>

text \<open>
  \<^verbatim>\<open>GetInput\<close> builds two structures when the action is both a press and a release and
  one otherwise, and sets the key-up flag on the last one when the action releases.
\<close>

definition GetInput :: "os \<Rightarrow> int \<times> int \<times> int \<Rightarrow> bool \<Rightarrow> bool \<Rightarrow> keybd_input list" where
  "GetInput os info down up =
     (case info of (vk, scan, flags) \<Rightarrow>
        let actions = (if up \<and> down then 2 else 1 :: nat);
            inp = \<lparr>input_type = INPUT_KEYBOARD, wVk = word_of_int vk, wScan = word_of_int scan,
                   dwFlags = word_of_int flags, dwExtraInfo = GetMessageExtraInfo os\<rparr>;
            inputs = replicate actions inp
        in if up
           then butlast inputs @ [inp\<lparr>dwFlags := dwFlags inp OR word_of_int KEYEVENTF_KEYUP\<rparr>]
           else inputs)"

text \<open>
  \<^verbatim>\<open>KeyAction.run\<close> hands the structures to the module's \<^verbatim>\<open>SendInput\<close> (the function of
  \<^verbatim>\<open>ctypes.windll.user32\<close>, which has no error check) and compares its answer with their
  number.
\<close>

definition KeyAction_run ::
    "os \<Rightarrow> char \<Rightarrow> bool \<Rightarrow> bool \<Rightarrow> event list \<Rightarrow> (error + unit) \<times> event list" where
  "KeyAction_run os key down up tr =
     (let inputs = GetInput os (0, of_char key, KEYEVENTF_UNICODE) down up;
          num_inserted_events = SendInput os tr inputs;
          tr' = tr @ [SendInputCall inputs]
      in if num_inserted_events \<noteq> length inputs
         then (Inl (RuntimeError (''SendInput() inserted only '' @ str_nat num_inserted_events
                 @ '' out of '' @ str_nat (length inputs) @ '' keyboard events'')), tr')
         else (Inr (), tr'))"





section \<open>The targeted injection path\<close>

text \<open>
  The variables of the loop of \<^verbatim>\<open>send_keystrokes\<close>: the stack of keyboard states (its top
  is the last element, as \<^verbatim>\<open>append\<close> and \<^verbatim>\<open>pop\<close> have it), the context code, and the
  calls made so far. A step returns the state it reached and the exception raised there,
  if any.
\<close>

record inj_state =
  keyboard_state_stack :: "snapshot list"
  context_code :: int
  events :: "event list"

text \<open>The layout translation of a Unicode action: virtual key, shift state, scan code.\<close>

definition translate :: "os \<Rightarrow> int \<Rightarrow> int \<times> int \<times> int \<Rightarrow> int \<times> int \<times> int" where
  "translate os input_locale_id info =
     (case info of (vk, scan, flags) \<Rightarrow>
        if flags AND KEYEVENTF_UNICODE \<noteq> 0 then
          let vk_with_flags = VkKeyScanExW os (char_of scan) input_locale_id;
              vk' = vk_with_flags AND 0xFF
          in (vk', drop_bit 8 (vk_with_flags AND 0xFF00), MapVirtualKeyW os vk' 0)
        else (vk, 0, scan))"

text \<open>
  The branch \<^verbatim>\<open>if key.down and vk > 0\<close>. Reading the top of an empty stack and writing
  a keyboard state at an index above 255 raise \<^verbatim>\<open>IndexError\<close>, before anything is pushed.
  The new state is a copy: the states below it are not changed.
\<close>

definition key_down ::
    "int \<Rightarrow> int \<Rightarrow> int \<Rightarrow> int \<Rightarrow> int \<Rightarrow> int \<Rightarrow> inj_state \<Rightarrow> inj_state \<times> error option" where
  "key_down handle down_msg vk shift_state scan flags st =
     (case keyboard_state_stack st of
        [] \<Rightarrow> (st, Some IndexError)
      | _ # _ \<Rightarrow>
          if 256 \<le> vk then (st, Some IndexError)
          else
            let top = last (keyboard_state_stack st);
                pressed = top(word_of_int vk := top (word_of_int vk) OR 128);
                new_keyboard_state =
                  (if shift_state AND 1 = 1
                   then pressed(word_of_int VK_SHIFT := pressed (word_of_int VK_SHIFT) OR 128)
                   else pressed);
                lparam = push_bit 0 1 OR push_bit 16 scan OR push_bit 24 (flags AND 1)
                           OR push_bit 29 (context_code st) OR push_bit 31 0
            in (\<lparr>keyboard_state_stack = keyboard_state_stack st @ [new_keyboard_state],
                 context_code = (if vk = VK_MENU then 1 else context_code st),
                 events = events st @ [SetKeyboardStateCall new_keyboard_state,
                                       PostMessageCall handle down_msg vk lparam, Sleep_ms 10]\<rparr>,
                None))"

text \<open>
  The branch \<^verbatim>\<open>if key.up and vk > 0\<close>: the pop, the message, then
  \<^verbatim>\<open>SetKeyboardState(keyboard_state_stack[-1])\<close>, which raises \<^verbatim>\<open>IndexError\<close> when the pop
  has emptied the stack.
\<close>

definition key_up ::
    "int \<Rightarrow> int \<Rightarrow> int \<Rightarrow> int \<Rightarrow> int \<Rightarrow> inj_state \<Rightarrow> inj_state \<times> error option" where
  "key_up handle up_msg vk scan flags st =
     (case keyboard_state_stack st of
        [] \<Rightarrow> (st, Some IndexError)
      | _ # _ \<Rightarrow>
          let popped = butlast (keyboard_state_stack st);
              lparam = push_bit 0 1 OR push_bit 16 scan OR push_bit 24 (flags AND 1)
                         OR push_bit 29 (context_code st) OR push_bit 30 1 OR push_bit 31 1;
              posted = events st @ [PostMessageCall handle up_msg vk lparam]
          in case popped of
               [] \<Rightarrow> (\<lparr>keyboard_state_stack = [], context_code = context_code st,
                         events = posted\<rparr>, Some IndexError)
             | _ # _ \<Rightarrow>
                 (\<lparr>keyboard_state_stack = popped,
                   context_code = (if vk = VK_MENU then 0 else context_code st),
                   events = posted @ [SetKeyboardStateCall (last popped), Sleep_ms 10]\<rparr>,
                  None))"

fun key_is_down :: "'f action \<Rightarrow> bool" where
  "key_is_down (KeyAction key down up) = down"
| "key_is_down (VirtualKeyAction key down up) = down"
| "key_is_down (EscapedKeyAction key down up) = down"
| "key_is_down (PauseAction how_long) = False"

fun key_is_up :: "'f action \<Rightarrow> bool" where
  "key_is_up (KeyAction key down up) = up"
| "key_is_up (VirtualKeyAction key down up) = up"
| "key_is_up (EscapedKeyAction key down up) = up"
| "key_is_up (PauseAction how_long) = False"

text \<open>One iteration of \<^verbatim>\<open>for key in keys\<close>, and the loop.\<close>

definition key_step ::
    "os \<Rightarrow> int \<Rightarrow> int \<Rightarrow> 'f action \<Rightarrow> inj_state \<Rightarrow> inj_state \<times> error option" where
  "key_step os handle input_locale_id key st =
     (case get_key_info os key of
        Inl e \<Rightarrow> (st, Some e)
      | Inr (vk0, scan0, flags) \<Rightarrow>
          let sys = (vk0 = VK_MENU \<or> context_code st = 1);
              down_msg = (if sys then WM_SYSKEYDOWN else WM_KEYDOWN);
              up_msg = (if sys then WM_SYSKEYUP else WM_KEYUP)
          in case translate os input_locale_id (vk0, scan0, flags) of
               (vk, shift_state, scan) \<Rightarrow>
                 (case (if key_is_down key \<and> vk > 0
                        then key_down handle down_msg vk shift_state scan flags st
                        else (st, None)) of
                    (st1, Some e) \<Rightarrow> (st1, Some e)
                  | (st1, None) \<Rightarrow>
                      if key_is_up key \<and> vk > 0
                      then key_up handle up_msg vk scan flags st1
                      else (st1, None)))"

fun inject_keys ::
    "os \<Rightarrow> int \<Rightarrow> int \<Rightarrow> 'f action list \<Rightarrow> inj_state \<Rightarrow> inj_state \<times> error option" where
  "inject_keys os handle input_locale_id [] st = (st, None)"
| "inject_keys os handle input_locale_id (key # keys) st =
     (case key_step os handle input_locale_id key st of
        (st1, Some e) \<Rightarrow> (st1, Some e)
      | (st1, None) \<Rightarrow> inject_keys os handle input_locale_id keys st1)"

text \<open>
  \<^verbatim>\<open>send_keystrokes\<close>: the calls before the loop, the \<^verbatim>\<open>try\<close> block with its handler
  (which prints, then reads \<^verbatim>\<open>keyboard_state_stack[0]\<close>), and the calls after it. The
  keys are parsed after the thread input is attached, and outside the \<^verbatim>\<open>try\<close> block.
\<close>

fun is_escaped :: "'f action \<Rightarrow> bool" where
  "is_escaped (EscapedKeyAction key down up) = True"
| "is_escaped k = False"

definition entry_events :: "os \<Rightarrow> int \<Rightarrow> bool \<Rightarrow> event list" where
  "entry_events os handle activate_window_before =
     (if activate_window_before
      then [SendMessageACall handle WM_ACTIVATE WA_ACTIVE 0,
            SendMessageCall handle WM_ACTIVATE WA_ACTIVE 0,
            EnableWindowCall handle True, ForceActivateWindow handle]
      else [])
     @ [AttachThreadInputCall (GetWindowThreadProcessId os handle) (GetCurrentThreadId os) True]
     @ (if AttachThreadInput os (GetWindowThreadProcessId os handle) (GetCurrentThreadId os) True = 0
        then [Warn ''Failed to attach app's thread to the current thread's message queue'']
        else [])"

definition combo_warning :: "'f action list \<Rightarrow> event list" where
  "combo_warning keys =
     (if list_ex is_escaped keys
      then [Warn ''Key combinations may or may not work depending on the target app'']
      else [])"

definition exit_events :: "os \<Rightarrow> int \<Rightarrow> bool \<Rightarrow> event list" where
  "exit_events os handle activate_window_before =
     (if AttachThreadInput os (GetWindowThreadProcessId os handle) (GetCurrentThreadId os) True \<noteq> 0
      then [AttachThreadInputCall (GetWindowThreadProcessId os handle) (GetCurrentThreadId os) False]
      else [])
     @ (if activate_window_before then [Sleep_ms 100, DeactivateTopmost handle] else [])"

definition send_keystrokes ::
    "os \<Rightarrow> (string \<Rightarrow> 'f option) \<Rightarrow> int \<Rightarrow> string \<Rightarrow> bool \<Rightarrow> bool \<Rightarrow> bool \<Rightarrow> bool
       \<Rightarrow> (error + unit) \<times> event list" where
  "send_keystrokes os float handle keystrokes with_spaces with_tabs with_newlines
       activate_window_before =
     (case parse_keys float keystrokes with_spaces with_tabs with_newlines True of
        Inl e \<Rightarrow> (Inl e, entry_events os handle activate_window_before)
      | Inr keys \<Rightarrow>
          (case inject_keys os handle (GetKeyboardLayout os 0) keys
                  \<lparr>keyboard_state_stack = [GetKeyboardState os], context_code = 0,
                   events = entry_events os handle activate_window_before @ combo_warning keys\<rparr> of
             (st, None) \<Rightarrow> (Inr (), events st @ exit_events os handle activate_window_before)
           | (st, Some e) \<Rightarrow>
               (case keyboard_state_stack st of
                  [] \<Rightarrow> (Inl IndexError, events st @ [Print ''fehler''])
                | base # _ \<Rightarrow>
                    (Inr (), events st @ [Print ''fehler'', SetKeyboardStateCall base]
                               @ exit_events os handle activate_window_before))))"

text \<open>The virtual-key codes of the key messages posted to the window, in order.\<close>

definition posted_keys :: "event list \<Rightarrow> int list" where
  "posted_keys evs =
     concat (map (\<lambda>ev. case ev of PostMessageCall hwnd msg vk lparam \<Rightarrow> [vk] | _ \<Rightarrow> []) evs)"




section \<open>An environment to run the model in\<close>

text \<open>
  An operating system that accepts every event, attaches the thread input, has no key
  down and maps a character to the code of its upper-case form; and a reader of floats
  that knows the unsigned decimal integers, where it agrees with Python's \<^verbatim>\<open>float\<close>.
\<close>

definition demo_os :: os where
  "demo_os = \<lparr>MapVirtualKeyW = (\<lambda>code map_type. 0),
             MapVirtualKeyExW = (\<lambda>code map_type hkl. 0),
             VkKeyScanW = (\<lambda>c. of_char (upper_chr c)),
             VkKeyScanExW = (\<lambda>c hkl. of_char (upper_chr c)),
             GetMessageExtraInfo = 0,
             SendInput = (\<lambda>tr inputs. length inputs),
             GetWindowThreadProcessId = (\<lambda>hwnd. 7),
             GetCurrentThreadId = 8,
             AttachThreadInput = (\<lambda>a b f. 1),
             GetKeyboardState = (\<lambda>vk. 0),
             GetKeyboardLayout = (\<lambda>thread. 0x409)\<rparr>"

definition demo_float :: "string \<Rightarrow> nat option" where
  "demo_float s = (if s \<noteq> [] \<and> list_all isdigit s then Some (nat (digits_value s)) else None)"


section \<open>Concurrent multi-key scheduler: the logarithmic split\<close>

text \<open>
  \<^verbatim>\<open>log_split\<close> wraps the generator \<^verbatim>\<open>logsplit\<close>: \<^verbatim>\<open>enumerate\<close> hands out the chunk
  number \<open>n\<close> together with the next element \<open>e\<close> of the shared iterator, and the chunk is
  \<open>e\<close> followed by up to \<open>n\<close> further elements taken from the same iterator
  (\<^verbatim>\<open>itertools.islice(iterator, n)\<close>). The caller turns every chunk into a list before it
  asks for the next one, so the iterator has advanced past the chunk by then: the rest of
  the input is \<open>drop n rest\<close>.
\<close>

fun logsplit :: "nat \<Rightarrow> 'a list \<Rightarrow> 'a list list" where
  "logsplit n [] = []"
| "logsplit n (e # rest) = (e # take n rest) # logsplit (Suc n) (drop n rest)"

text \<open>With one iterable (\<^verbatim>\<open>len(args) == 1\<close>), as \<^verbatim>\<open>press_multiple_keys\<close> calls it.\<close>

definition log_split :: "'a list \<Rightarrow> 'a list list" where
  "log_split lst = logsplit 0 lst"

text \<open>With two iterables (\<^verbatim>\<open>len(args) > 1\<close>) the arguments are zipped first.\<close>

definition log_split_zip :: "'a list \<Rightarrow> 'b list \<Rightarrow> ('a \<times> 'b) list list" where
  "log_split_zip xs ys = logsplit 0 (zip xs ys)"

section \<open>Properties of the compiler\<close>

lemma CODES_DOWN: "map_of CODES ''DOWN'' = Some 40"
  by (simp add: CODES_def)

lemma CODES_DOWN_3: "map_of CODES ''DOWN 3'' = None"
  by (simp add: CODES_def)

lemma MODIFIERS_simps:
  "map_of MODIFIERS c =
     (if c = CHR ''+'' then Some VK_SHIFT else if c = CHR ''^'' then Some VK_CONTROL
      else if c = CHR ''%'' then Some VK_MENU else None)"
  by (simp add: MODIFIERS_def)

lemma parse_keys_group_shift:
  "parse_keys float ''(+ab)'' False False False True =
     Inr [VirtualKeyAction VK_SHIFT True False, EscapedKeyAction (CHR ''a'') True True,
          VirtualKeyAction VK_SHIFT False True, KeyAction (CHR ''b'') True True]"
  by (simp add: parse_keys_def MODIFIERS_simps find_chr_def release_modifiers_def plain_key_def)

text \<open>
  The modifier before the group gives the same four actions: the group's recursive call
  shares the list \<^verbatim>\<open>modifiers\<close>, and its release loop empties the list after the first
  character.
\<close>

lemma parse_keys_shift_before_group:
  "parse_keys float ''+(ab)'' False False False True =
     Inr [VirtualKeyAction VK_SHIFT True False, EscapedKeyAction (CHR ''a'') True True,
          VirtualKeyAction VK_SHIFT False True, KeyAction (CHR ''b'') True True]"
  by (simp add: parse_keys_def MODIFIERS_simps find_chr_def release_modifiers_def plain_key_def)

text \<open>
  Claim C1, as stated, fails: compiling \<^verbatim>\<open>(+ab)\<close> gives no escaped action for \<open>b\<close>, and
  the sequence does not end with the release of SHIFT.
\<close>

theorem parse_keys_group_shift_counterexample:
  "\<not> (\<exists>ks. parse_keys demo_float ''(+ab)'' False False False True = Inr ks
          \<and> EscapedKeyAction (CHR ''b'') True True \<in> set ks
          \<and> last ks = VirtualKeyAction VK_SHIFT False True)"
  by (simp add: parse_keys_group_shift)

text \<open>
  Claim C1, amended. With the default options, compiling \<^verbatim>\<open>(+ab)\<close> gives exactly four
  actions: one SHIFT hold-down (no release), the action for \<open>a\<close> on the escaped path,
  one SHIFT release (no press) right after it, then \<open>b\<close> as a plain literal action. The
  modifier written inside the group applies to the next character only, as it does
  outside a group.
\<close>

theorem parse_keys_group_shift_first_only:
  "parse_keys float ''(+ab)'' False False False True =
     Inr [VirtualKeyAction VK_SHIFT True False, EscapedKeyAction (CHR ''a'') True True,
          VirtualKeyAction VK_SHIFT False True, KeyAction (CHR ''b'') True True]"
  by (simp add: parse_keys_group_shift)

text \<open>
  Claim C5. Compiling \<^verbatim>\<open>{DOWN 3}\<close> gives exactly three virtual-key actions, each with
  the code 40 of the DOWN arrow and with both \<open>down\<close> and \<open>up\<close> true, and nothing else.
  This holds for every setting of the options, the default one included.
\<close>

theorem parse_keys_down_3:
  "parse_keys float ''{DOWN 3}'' with_spaces with_tabs with_newlines vk_packet =
     Inr [VirtualKeyAction 40 True True, VirtualKeyAction 40 True True,
          VirtualKeyAction 40 True True]"
  by (simp add: parse_keys_def MODIFIERS_simps find_chr_def CODES_DOWN CODES_DOWN_3 lower_chr_def
      ascii_uppercase_def ascii_lowercase_def rsplit1_def rstrip_def isspace_def py_int_def
      strip_def isdigit_def digits_def digits_value_def release_modifiers_def Let_def
      numeral_3_eq_3)

lemma find_chr_append:
  "c \<notin> set xs \<Longrightarrow> find_chr c (xs @ c # ys) = Some (length xs)"
  by (induction xs) (auto simp: find_chr_def)

lemma contains_subset: "contains sub s \<Longrightarrow> set sub \<subseteq> set s"
proof (induction s)
  case Nil
  then show ?case by simp
next
  case (Cons x xs)
  from Cons.prems have "take (length sub) (x # xs) = sub \<or> contains sub xs" by simp
  then show ?case
  proof
    assume "take (length sub) (x # xs) = sub"
    then have "set sub = set (take (length sub) (x # xs))" by simp
    also have "\<dots> \<subseteq> set (x # xs)" by (rule set_take_subset)
    finally show ?thesis .
  next
    assume "contains sub xs"
    with Cons.IH show ?thesis by auto
  qed
qed

lemma lower_chr_space: "lower_chr c = CHR '' '' \<Longrightarrow> c = CHR '' ''"
  by (simp add: lower_chr_def ascii_uppercase_def ascii_lowercase_def split: if_splits)

lemma no_key_event:
  assumes "CHR '' '' \<notin> set code"
  shows "\<not> contains '' up'' (map lower_chr code)" and "\<not> contains '' down'' (map lower_chr code)"
proof -
  have "CHR '' '' \<notin> set (map lower_chr code)"
  proof
    assume "CHR '' '' \<in> set (map lower_chr code)"
    then obtain x where "x \<in> set code" and "lower_chr x = CHR '' ''" by auto
    with lower_chr_space[of x] assms show False by simp
  qed
  then show "\<not> contains '' up'' (map lower_chr code)"
    and "\<not> contains '' down'' (map lower_chr code)"
    using contains_subset by fastforce+
qed

lemma handle_code_unknown:
  assumes "map_of CODES code = None" and "length code \<noteq> 1" and "CHR '' '' \<notin> set code"
  shows "handle_code float code vk_packet = Inl (RuntimeError (''Unknown code: '' @ code))"
  using assms by simp

lemma braced_token:
  assumes "1 < length t" and "CHR ''}'' \<notin> set (tl t)"
  shows "find_chr (CHR ''}'') (drop 1 (t @ CHR ''}'' # rest)) = Some (length t - 1)"
    and "take (Suc (length t - 1)) (t @ CHR ''}'' # rest) = t"
proof -
  from assms(1) obtain x xs where t: "t = x # xs" by (cases t) auto
  with assms(2) have "CHR ''}'' \<notin> set xs" by simp
  then show "find_chr (CHR ''}'') (drop 1 (t @ CHR ''}'' # rest)) = Some (length t - 1)"
    using t by (simp add: find_chr_append)
  show "take (Suc (length t - 1)) (t @ CHR ''}'' # rest) = t"
    using t by simp
qed

text \<open>
  Claim C10. A braced token \<open>t\<close> that is not a key of \<open>CODES\<close>, has more than one
  character and contains no space makes the compiler raise a \<^verbatim>\<open>RuntimeError\<close> with the
  message \<^verbatim>\<open>Unknown code: t\<close>, not a \<^verbatim>\<open>KeySequenceError\<close>. The token is what stands
  between the braces: its closing brace is the first one after its first character. The
  error is raised wherever the loop meets the token, whatever was parsed before it, and
  so also when the notation starts with it.
\<close>

theorem unknown_code_error:
  assumes "map_of CODES t = None" and "1 < length t" and "CHR '' '' \<notin> set t"
    and "CHR ''}'' \<notin> set (tl t)"
  shows "parse_loop float ws wt wn vkp (CHR ''{'' # t @ CHR ''}'' # rest) keys mods esc
           = Inl (RuntimeError (''Unknown code: '' @ t))
         \<and> parse_keys float (CHR ''{'' # t @ CHR ''}'' # rest) ws wt wn vkp
           = Inl (RuntimeError (''Unknown code: '' @ t))
         \<and> parse_keys float (CHR ''{'' # t @ CHR ''}'' # rest) ws wt wn vkp
           \<noteq> Inl (KeySequenceError msg)"
proof -
  have hc: "handle_code float t vkp = Inl (RuntimeError (''Unknown code: '' @ t))"
    using assms by (intro handle_code_unknown) auto
  have loop: "parse_loop float ws wt wn vkp (CHR ''{'' # t @ CHR ''}'' # rest) keys mods esc
           = Inl (RuntimeError (''Unknown code: '' @ t))" for keys mods esc
    using braced_token[OF assms(2) assms(4), of rest] no_key_event[OF assms(3)] hc
    by (simp add: MODIFIERS_simps del: handle_code.simps)
  then have "parse_keys float (CHR ''{'' # t @ CHR ''}'' # rest) ws wt wn vkp
           = Inl (RuntimeError (''Unknown code: '' @ t))"
    by (simp add: parse_keys_def del: parse_loop.simps)
  with loop show ?thesis by simp
qed

theorem unknown_code_error_witness:
  "map_of CODES ''FOO'' = None \<and> 1 < length ''FOO'' \<and> CHR '' '' \<notin> set ''FOO''
   \<and> CHR ''}'' \<notin> set (tl ''FOO'')
   \<and> parse_keys demo_float ''{FOO}'' False False False True
       = Inl (RuntimeError ''Unknown code: FOO'')"
  using unknown_code_error[of "''FOO''" demo_float False False False True "[]" "[]" "[]" False]
  by (simp add: CODES_def)

section \<open>Properties of the global injection path\<close>

lemma GetInput_length: "length (GetInput os info down up) = (if up \<and> down then 2 else 1)"
  by (cases info) (simp add: GetInput_def Let_def split: prod.splits)

lemma KeyAction_run_result:
  "fst (KeyAction_run os key down up tr) =
     (if SendInput os tr (GetInput os (0, of_char key, KEYEVENTF_UNICODE) down up)
           \<noteq> (if up \<and> down then 2 else 1)
      then Inl (RuntimeError (''SendInput() inserted only ''
             @ str_nat (SendInput os tr (GetInput os (0, of_char key, KEYEVENTF_UNICODE) down up))
             @ '' out of '' @ str_nat (if up \<and> down then 2 else 1) @ '' keyboard events''))
      else Inr ())"
  by (simp add: KeyAction_run_def Let_def GetInput_length del: str_nat.simps)

text \<open>
  Claim C4, as stated, fails: a press-and-release action asks for two events, and when
  the operating system accepts one of them, \<^verbatim>\<open>KeyAction.run\<close> raises.
\<close>

theorem KeyAction_run_partial_counterexample:
  "1 \<le> SendInput (demo_os\<lparr>SendInput := (\<lambda>tr inputs. 1)\<rparr>) []
          (GetInput (demo_os\<lparr>SendInput := (\<lambda>tr inputs. 1)\<rparr>) (0, of_char (CHR ''a''), KEYEVENTF_UNICODE) True True)
   \<and> fst (KeyAction_run (demo_os\<lparr>SendInput := (\<lambda>tr inputs. 1)\<rparr>) (CHR ''a'') True True [])
       = Inl (RuntimeError ''SendInput() inserted only 1 out of 2 keyboard events'')"
  by (simp add: KeyAction_run_result demo_os_def digits_def)

text \<open>
  Claim C4, amended. \<^verbatim>\<open>KeyAction.run\<close> raises its \<^verbatim>\<open>RuntimeError\<close> exactly when the
  number of events that the operating system reports as inserted differs from the
  number requested (two for a press-and-release action, one otherwise), and it
  completes without raising exactly when all the requested events are accepted. Zero
  accepted events is one such case.
\<close>

theorem KeyAction_run_rejected_iff:
  "((\<exists>msg. fst (KeyAction_run os key down up tr) = Inl (RuntimeError msg))
      = (SendInput os tr (GetInput os (0, of_char key, KEYEVENTF_UNICODE) down up)
           \<noteq> (if up \<and> down then 2 else 1)))
   \<and> ((fst (KeyAction_run os key down up tr) = Inr ())
      = (SendInput os tr (GetInput os (0, of_char key, KEYEVENTF_UNICODE) down up)
           = (if up \<and> down then 2 else 1)))"
  by (simp add: KeyAction_run_result del: str_nat.simps)








section \<open>Properties of the targeted injection path\<close>

lemma posted_keys_append: "posted_keys (xs @ ys) = posted_keys xs @ posted_keys ys"
  by (simp add: posted_keys_def)

lemma posted_keys_entry: "posted_keys (entry_events os handle act) = []"
  by (auto simp: posted_keys_def entry_events_def)

lemma posted_keys_combo: "posted_keys (combo_warning keys) = []"
  by (auto simp: posted_keys_def combo_warning_def)

lemma posted_keys_exit: "posted_keys (exit_events os handle act) = []"
  by (auto simp: posted_keys_def exit_events_def)

lemma key_down_posted:
  assumes "key_down handle msg vk shift_state scan flags st = (st', eo)"
    and "0 < vk" and "list_all (\<lambda>v. 0 < v) (posted_keys (events st))"
  shows "list_all (\<lambda>v. 0 < v) (posted_keys (events st'))"
  using assms
  by (auto simp: key_down_def Let_def posted_keys_append posted_keys_def
      split: list.splits if_splits)

lemma key_up_posted:
  assumes "key_up handle msg vk scan flags st = (st', eo)"
    and "0 < vk" and "list_all (\<lambda>v. 0 < v) (posted_keys (events st))"
  shows "list_all (\<lambda>v. 0 < v) (posted_keys (events st'))"
  using assms
  by (auto simp: key_up_def Let_def posted_keys_append posted_keys_def
      split: list.splits if_splits)

lemma key_step_posted:
  assumes "key_step os handle loc key st = (st', eo)"
    and "list_all (\<lambda>v. 0 < v) (posted_keys (events st))"
  shows "list_all (\<lambda>v. 0 < v) (posted_keys (events st'))"
proof (cases "get_key_info os key")
  case (Inl e)
  with assms show ?thesis by (simp add: key_step_def)
next
  case (Inr info)
  obtain vk0 scan0 flags where info: "info = (vk0, scan0, flags)" by (cases info) auto
  obtain vk ss scan where tr: "translate os loc (vk0, scan0, flags) = (vk, ss, scan)"
    by (cases "translate os loc (vk0, scan0, flags)") auto
  define dm where "dm = (if vk0 = VK_MENU \<or> context_code st = 1 then WM_SYSKEYDOWN else WM_KEYDOWN)"
  define um where "um = (if vk0 = VK_MENU \<or> context_code st = 1 then WM_SYSKEYUP else WM_KEYUP)"
  define r1 where "r1 = (if key_is_down key \<and> vk > 0 then key_down handle dm vk ss scan flags st else (st, None))"
  obtain st1 e1 where r1: "r1 = (st1, e1)" by (cases r1) auto
  have inv1: "list_all (\<lambda>v. 0 < v) (posted_keys (events st1))"
  proof (cases "key_is_down key \<and> vk > 0")
    case True
    with r1 have "key_down handle dm vk ss scan flags st = (st1, e1)" by (simp add: r1_def)
    from key_down_posted[OF this _ assms(2)] True show ?thesis by simp
  next
    case False
    with r1 assms(2) show ?thesis by (simp add: r1_def)
  qed
  have step: "key_step os handle loc key st =
      (case r1 of (st1, Some e) \<Rightarrow> (st1, Some e)
       | (st1, None) \<Rightarrow> if key_is_up key \<and> vk > 0 then key_up handle um vk scan flags st1 else (st1, None))"
    unfolding key_step_def Inr info r1_def dm_def um_def Let_def
    by (simp only: sum.case prod.case tr)
  show ?thesis
  proof (cases e1)
    case (Some e)
    with step r1 assms(1) inv1 show ?thesis by simp
  next
    case None
    show ?thesis
    proof (cases "key_is_up key \<and> vk > 0")
      case True
      with step r1 None assms(1) have "key_up handle um vk scan flags st1 = (st', eo)" by simp
      from key_up_posted[OF this _ inv1] True show ?thesis by simp
    next
      case False
      with step r1 None assms(1) inv1 show ?thesis by simp
    qed
  qed
qed

lemma inject_keys_posted:
  "inject_keys os handle loc keys st = (st', eo) \<Longrightarrow>
   list_all (\<lambda>v. 0 < v) (posted_keys (events st)) \<Longrightarrow>
   list_all (\<lambda>v. 0 < v) (posted_keys (events st'))"
proof (induction keys arbitrary: st)
  case Nil
  then show ?case by simp
next
  case (Cons key keys)
  obtain st1 e1 where k: "key_step os handle loc key st = (st1, e1)"
    by (cases "key_step os handle loc key st") auto
  from key_step_posted[OF k Cons.prems(2)]
  have i1: "list_all (\<lambda>v. 0 < v) (posted_keys (events st1))" .
  show ?case
  proof (cases e1)
    case None
    with k Cons.prems(1) have "inject_keys os handle loc keys st1 = (st', eo)" by simp
    from Cons.IH[OF this i1] show ?thesis .
  next
    case (Some e)
    with k Cons.prems(1) i1 show ?thesis by simp
  qed
qed

text \<open>
  Claim C6. Whatever the notation, the options, the window and the answers of the
  operating system, every key message that \<^verbatim>\<open>send_keystrokes\<close> posts, key-down or key-up,
  carries a virtual-key code that is strictly greater than zero; this covers the
  messages posted before an exception, too.
\<close>

theorem never_posts_zero:
  "list_all (\<lambda>vk. 0 < vk)
     (posted_keys (snd (send_keystrokes os float handle keystrokes with_spaces with_tabs
        with_newlines activate_window_before)))"
proof (cases "parse_keys float keystrokes with_spaces with_tabs with_newlines True")
  case (Inl e)
  then show ?thesis by (simp add: send_keystrokes_def posted_keys_entry)
next
  case (Inr keys)
  define st0 where "st0 = \<lparr>keyboard_state_stack = [GetKeyboardState os], context_code = 0,
       events = entry_events os handle activate_window_before @ combo_warning keys\<rparr>"
  have i0: "list_all (\<lambda>v. 0 < v) (posted_keys (events st0))"
    by (simp add: st0_def posted_keys_append posted_keys_entry posted_keys_combo)
  obtain st eo where r: "inject_keys os handle (GetKeyboardLayout os 0) keys st0 = (st, eo)"
    by (cases "inject_keys os handle (GetKeyboardLayout os 0) keys st0") auto
  from inject_keys_posted[OF r i0] have i: "list_all (\<lambda>v. 0 < v) (posted_keys (events st))" .
  have extra: "posted_keys (Print msg # evs) = posted_keys evs"
    "posted_keys (SetKeyboardStateCall b # evs) = posted_keys evs" "posted_keys [] = []" for msg b evs
    by (simp_all add: posted_keys_def)
  show ?thesis
    using i r[unfolded st0_def] Inr
    by (auto simp: send_keystrokes_def posted_keys_append posted_keys_exit extra
        split: option.splits list.splits)
qed

lemma CODES_UP: "map_of CODES ''UP'' = Some 38"
  by (simp add: CODES_def)

lemma parse_keys_up_up:
  "parse_keys float ''{UP up}'' ws wt wn vkp = Inr [VirtualKeyAction 38 False True]"
  by (simp add: parse_keys_def MODIFIERS_simps find_chr_def CODES_UP lower_chr_def
      ascii_uppercase_def ascii_lowercase_def set_key_event_def strip_def rstrip_def isspace_def
      release_modifiers_def Let_def)

lemma inject_up_only:
  "inject_keys os handle loc [VirtualKeyAction 38 False True]
     \<lparr>keyboard_state_stack = [base], context_code = 0, events = evs\<rparr>
   = (\<lparr>keyboard_state_stack = [], context_code = 0,
       events = evs @ [PostMessageCall handle WM_KEYUP 38
          (push_bit 0 1 OR push_bit 16 (MapVirtualKeyW os 38 0)
             OR push_bit 24 (KEYEVENTF_EXTENDEDKEY AND 1)
             OR push_bit 29 0 OR push_bit 30 1 OR push_bit 31 1)]\<rparr>, Some IndexError)"
  by (simp add: key_step_def translate_def key_up_def Let_def VK_MENU_def KEYEVENTF_EXTENDEDKEY_def
      KEYEVENTF_UNICODE_def)

text \<open>
  Claim C9. The notation \<^verbatim>\<open>{UP up}\<close> compiles to one up-only action. In
  \<^verbatim>\<open>send_keystrokes\<close> its up transition pops the base entry, which empties the stack;
  reading the top of the stack then raises \<^verbatim>\<open>IndexError\<close>, and so does the handler, which
  reads the stack again after printing. The call ends with that exception, and neither
  the detaching \<^verbatim>\<open>AttachThreadInput\<close> call nor \<^verbatim>\<open>deactivate_topmost\<close> is made, whatever
  the operating system answered to the attachment and whether or not the window was
  activated first.
\<close>

theorem up_only_escapes:
  "parse_keys float ''{UP up}'' with_spaces with_tabs with_newlines True
     = Inr [VirtualKeyAction 38 False True]
   \<and> keyboard_state_stack (fst (inject_keys os handle (GetKeyboardLayout os 0)
         [VirtualKeyAction 38 False True :: 'f action]
         \<lparr>keyboard_state_stack = [GetKeyboardState os], context_code = 0,
          events = entry_events os handle activate_window_before\<rparr>)) = []
   \<and> fst (send_keystrokes os float handle ''{UP up}'' with_spaces with_tabs with_newlines
          activate_window_before) = Inl IndexError
   \<and> last (snd (send_keystrokes os float handle ''{UP up}'' with_spaces with_tabs with_newlines
          activate_window_before)) = Print ''fehler''
   \<and> AttachThreadInputCall (GetWindowThreadProcessId os handle) (GetCurrentThreadId os) False
        \<notin> set (snd (send_keystrokes os float handle ''{UP up}'' with_spaces with_tabs
                     with_newlines activate_window_before))
   \<and> DeactivateTopmost handle
        \<notin> set (snd (send_keystrokes os float handle ''{UP up}'' with_spaces with_tabs
                     with_newlines activate_window_before))"
  by (simp add: parse_keys_up_up send_keystrokes_def inject_up_only combo_warning_def
      entry_events_def del: inject_keys.simps)








lemma CODES_PAUSE_1: "map_of CODES ''PAUSE 1'' = None"
  by (simp add: CODES_def)

lemma parse_keys_pause_1:
  "parse_keys demo_float ''{PAUSE 1}'' ws wt wn vkp = Inr [PauseAction 1]"
  by (simp add: parse_keys_def MODIFIERS_simps find_chr_def CODES_PAUSE_1 lower_chr_def
      ascii_uppercase_def ascii_lowercase_def rsplit1_def rstrip_def isspace_def demo_float_def
      isdigit_def digits_def digits_value_def release_modifiers_def Let_def)

lemma key_down_base:
  assumes "key_down handle msg vk shift_state scan flags st = (st', eo)"
    and "keyboard_state_stack st = [] \<or> hd (keyboard_state_stack st) = b"
  shows "keyboard_state_stack st' = [] \<or> hd (keyboard_state_stack st') = b"
  using assms by (auto simp: key_down_def Let_def split: list.splits if_splits)

lemma key_up_base:
  assumes "key_up handle msg vk scan flags st = (st', eo)"
    and "keyboard_state_stack st = [] \<or> hd (keyboard_state_stack st) = b"
  shows "keyboard_state_stack st' = [] \<or> hd (keyboard_state_stack st') = b"
  using assms by (auto simp: key_up_def Let_def split: list.splits if_splits)

lemma key_step_base:
  assumes "key_step os handle loc key st = (st', eo)"
    and "keyboard_state_stack st = [] \<or> hd (keyboard_state_stack st) = b"
  shows "keyboard_state_stack st' = [] \<or> hd (keyboard_state_stack st') = b"
proof (cases "get_key_info os key")
  case (Inl e)
  with assms show ?thesis by (simp add: key_step_def)
next
  case (Inr info)
  obtain vk0 scan0 flags where info: "info = (vk0, scan0, flags)" by (cases info) auto
  obtain vk ss scan where tr: "translate os loc (vk0, scan0, flags) = (vk, ss, scan)"
    by (cases "translate os loc (vk0, scan0, flags)") auto
  define dm where "dm = (if vk0 = VK_MENU \<or> context_code st = 1 then WM_SYSKEYDOWN else WM_KEYDOWN)"
  define um where "um = (if vk0 = VK_MENU \<or> context_code st = 1 then WM_SYSKEYUP else WM_KEYUP)"
  define r1 where "r1 = (if key_is_down key \<and> vk > 0 then key_down handle dm vk ss scan flags st else (st, None))"
  obtain st1 e1 where r1: "r1 = (st1, e1)" by (cases r1) auto
  have inv1: "keyboard_state_stack st1 = [] \<or> hd (keyboard_state_stack st1) = b"
  proof (cases "key_is_down key \<and> vk > 0")
    case True
    with r1 have "key_down handle dm vk ss scan flags st = (st1, e1)" by (simp add: r1_def)
    from key_down_base[OF this assms(2)] show ?thesis .
  next
    case False
    with r1 assms(2) show ?thesis by (simp add: r1_def)
  qed
  have step: "key_step os handle loc key st =
      (case r1 of (st1, Some e) \<Rightarrow> (st1, Some e)
       | (st1, None) \<Rightarrow> if key_is_up key \<and> vk > 0 then key_up handle um vk scan flags st1 else (st1, None))"
    unfolding key_step_def Inr info r1_def dm_def um_def Let_def
    by (simp only: sum.case prod.case tr)
  show ?thesis
  proof (cases e1)
    case (Some e)
    with step r1 assms(1) inv1 show ?thesis by auto
  next
    case None
    show ?thesis
    proof (cases "key_is_up key \<and> vk > 0")
      case True
      with step r1 None assms(1) have "key_up handle um vk scan flags st1 = (st', eo)" by simp
      from key_up_base[OF this inv1] show ?thesis .
    next
      case False
      with step r1 None assms(1) inv1 show ?thesis by auto
    qed
  qed
qed

lemma inject_keys_base:
  "inject_keys os handle loc keys st = (st', eo) \<Longrightarrow>
   keyboard_state_stack st = [] \<or> hd (keyboard_state_stack st) = b \<Longrightarrow>
   keyboard_state_stack st' = [] \<or> hd (keyboard_state_stack st') = b"
proof (induction keys arbitrary: st)
  case Nil
  then show ?case by auto
next
  case (Cons key keys)
  obtain st1 e1 where k: "key_step os handle loc key st = (st1, e1)"
    by (cases "key_step os handle loc key st") auto
  from key_step_base[OF k Cons.prems(2)]
  have i1: "keyboard_state_stack st1 = [] \<or> hd (keyboard_state_stack st1) = b" .
  show ?case
  proof (cases e1)
    case None
    with k Cons.prems(1) have "inject_keys os handle loc keys st1 = (st', eo)" by simp
    from Cons.IH[OF this i1] show ?thesis .
  next
    case (Some e)
    with k Cons.prems(1) i1 show ?thesis by auto
  qed
qed

lemma inject_pause:
  "inject_keys os handle loc [PauseAction t] st = (st, Some AttributeError)"
  by (simp add: key_step_def)

text \<open>
  Claim C2, as stated, fails: for the notation \<^verbatim>\<open>{PAUSE 1}\<close> the loop raises
  \<^verbatim>\<open>AttributeError\<close> at the pause action, and \<^verbatim>\<open>send_keystrokes\<close> returns normally: the
  exception does not reach the caller.
\<close>

theorem loop_exception_not_rethrown_counterexample:
  "snd (inject_keys demo_os 99 (GetKeyboardLayout demo_os 0) [PauseAction (1::nat)]
        \<lparr>keyboard_state_stack = [GetKeyboardState demo_os], context_code = 0,
         events = entry_events demo_os 99 True @ combo_warning [PauseAction (1::nat)]\<rparr>)
       = Some AttributeError
   \<and> parse_keys demo_float ''{PAUSE 1}'' True True True True = Inr [PauseAction 1]
   \<and> fst (send_keystrokes demo_os demo_float 99 ''{PAUSE 1}'' True True True True) = Inr ()
   \<and> fst (send_keystrokes demo_os demo_float 99 ''{PAUSE 1}'' True True True True)
        \<noteq> Inl AttributeError"
  by (simp add: parse_keys_pause_1 inject_pause send_keystrokes_def del: inject_keys.simps)

text \<open>
  Claim C2, amended. Whenever an exception occurs in the loop of \<^verbatim>\<open>send_keystrokes\<close>
  while the stack of keyboard states is not empty, the handler prints and sets the
  keyboard state to the base snapshot taken at entry, the thread inputs are detached
  when the attachment had succeeded, the topmost state is deactivated when the window
  had been activated first, and the call returns normally: the exception is swallowed,
  not raised again.
\<close>

theorem loop_exception_swallowed:
  assumes "parse_keys float keystrokes with_spaces with_tabs with_newlines True = Inr keys"
    and "inject_keys os handle (GetKeyboardLayout os 0) keys
           \<lparr>keyboard_state_stack = [GetKeyboardState os], context_code = 0,
            events = entry_events os handle activate_window_before @ combo_warning keys\<rparr>
         = (st, Some e)"
    and "keyboard_state_stack st \<noteq> []"
  shows "send_keystrokes os float handle keystrokes with_spaces with_tabs with_newlines
           activate_window_before
         = (Inr (),
            events st
            @ [Print ''fehler'', SetKeyboardStateCall (GetKeyboardState os)]
            @ (if AttachThreadInput os (GetWindowThreadProcessId os handle)
                    (GetCurrentThreadId os) True \<noteq> 0
               then [AttachThreadInputCall (GetWindowThreadProcessId os handle)
                       (GetCurrentThreadId os) False]
               else [])
            @ (if activate_window_before then [Sleep_ms 100, DeactivateTopmost handle] else []))"
proof -
  from inject_keys_base[OF assms(2), of "GetKeyboardState os"] assms(3)
  have "hd (keyboard_state_stack st) = GetKeyboardState os" by simp
  with assms(3) obtain rest where "keyboard_state_stack st = GetKeyboardState os # rest"
    by (cases "keyboard_state_stack st") auto
  with assms(1,2) show ?thesis
    by (simp add: send_keystrokes_def exit_events_def)
qed

theorem loop_exception_swallowed_witness:
  "parse_keys demo_float ''{PAUSE 1}'' True True True True = Inr [PauseAction 1]
   \<and> snd (inject_keys demo_os 99 (GetKeyboardLayout demo_os 0) [PauseAction (1::nat)]
        \<lparr>keyboard_state_stack = [GetKeyboardState demo_os], context_code = 0,
         events = entry_events demo_os 99 True @ combo_warning [PauseAction (1::nat)]\<rparr>)
       = Some AttributeError
   \<and> send_keystrokes demo_os demo_float 99 ''{PAUSE 1}'' True True True True
       = (Inr (),
          [SendMessageACall 99 WM_ACTIVATE WA_ACTIVE 0, SendMessageCall 99 WM_ACTIVATE WA_ACTIVE 0,
           EnableWindowCall 99 True, ForceActivateWindow 99, AttachThreadInputCall 7 8 True,
           Print ''fehler'', SetKeyboardStateCall (GetKeyboardState demo_os),
           AttachThreadInputCall 7 8 False, Sleep_ms 100, DeactivateTopmost 99])"
proof -
  have p: "parse_keys demo_float ''{PAUSE 1}'' True True True True = Inr [PauseAction 1]"
    by (rule parse_keys_pause_1)
  have i: "inject_keys demo_os 99 (GetKeyboardLayout demo_os 0) [PauseAction (1::nat)]
        \<lparr>keyboard_state_stack = [GetKeyboardState demo_os], context_code = 0,
         events = entry_events demo_os 99 True @ combo_warning [PauseAction (1::nat)]\<rparr>
      = (\<lparr>keyboard_state_stack = [GetKeyboardState demo_os], context_code = 0,
         events = entry_events demo_os 99 True @ combo_warning [PauseAction (1::nat)]\<rparr>,
         Some AttributeError)"
    by (rule inject_pause)
  from loop_exception_swallowed[OF p i] p i
  show ?thesis
    by (simp add: entry_events_def combo_warning_def demo_os_def)
qed

section \<open>Properties of the logarithmic split\<close>

lemma concat_logsplit: "concat (logsplit n xs) = xs"
  by (induction n xs rule: logsplit.induct) simp_all

lemma logsplit_Nil_iff: "logsplit n xs = [] \<longleftrightarrow> xs = []"
  by (cases xs) simp_all

lemma logsplit_inner_length:
  "Suc i < length (logsplit n xs) \<Longrightarrow> length (logsplit n xs ! i) = Suc (n + i)"
proof (induction n xs arbitrary: i rule: logsplit.induct)
  case (1 n)
  then show ?case by simp
next
  case (2 n e rest)
  show ?case
  proof (cases i)
    case 0
    with "2.prems" have "logsplit (Suc n) (drop n rest) \<noteq> []" by auto
    then have "drop n rest \<noteq> []" by (simp add: logsplit_Nil_iff)
    then have "n < length rest" by simp
    with 0 show ?thesis by simp
  next
    case (Suc j)
    with "2.prems" have "Suc j < length (logsplit (Suc n) (drop n rest))" by simp
    from "2.IH"[OF this] Suc show ?thesis by simp
  qed
qed

lemma sum_Suc_shift: "(\<Sum>k<j. Suc (Suc (k + n))) = j + (\<Sum>k<j. Suc (k + n))"
  by (induction j) simp_all

lemma logsplit_nth:
  "i < length (logsplit n xs) \<Longrightarrow>
     logsplit n xs ! i = take (Suc (n + i)) (drop (\<Sum>k<i. Suc (n + k)) xs)"
proof (induction n xs arbitrary: i rule: logsplit.induct)
  case (1 n)
  then show ?case by simp
next
  case (2 n e rest)
  show ?case
  proof (cases i)
    case 0
    then show ?thesis by simp
  next
    case (Suc j)
    with "2.prems" have "j < length (logsplit (Suc n) (drop n rest))" by simp
    from "2.IH"[OF this] Suc show ?thesis
      by (simp add: sum.lessThan_Suc_shift sum_Suc_shift ac_simps)
  qed
qed

lemma logsplit_nth_nonempty:
  "i < length (logsplit n xs) \<Longrightarrow> logsplit n xs ! i \<noteq> []"
proof (induction n xs arbitrary: i rule: logsplit.induct)
  case (1 n)
  then show ?case by simp
next
  case (2 n e rest)
  then show ?case by (cases i) simp_all
qed

text \<open>
  Claim C7. For every finite list, the chunks of \<open>log_split\<close>, concatenated in order, give
  back the input; chunk \<open>i\<close> (counted from 0) is the slice of the input that starts after
  the \<open>1 + 2 + ... + i\<close> elements of the chunks before it and has at most \<open>i + 1\<close>
  elements; it is never empty, and every chunk but the last one has exactly \<open>i + 1\<close>
  elements, so only the last chunk can be shorter: it holds the elements that remain.
\<close>

theorem log_split_chunks:
  "concat (log_split xs) = xs \<and>
   (\<forall>i < length (log_split xs).
      log_split xs ! i = take (Suc i) (drop (\<Sum>k<i. Suc k) xs) \<and>
      log_split xs ! i \<noteq> [] \<and>
      (Suc i < length (log_split xs) \<longrightarrow> length (log_split xs ! i) = Suc i))"
  unfolding log_split_def
  using concat_logsplit[of 0 xs] logsplit_nth[of _ 0 xs] logsplit_nth_nonempty[of _ 0 xs]
    logsplit_inner_length[of _ 0 xs]
  by simp

theorem log_split_chunks_witness:
  "log_split [1, 2, 3, 4, 5, 6, 7, 8 :: nat] = [[1], [2, 3], [4, 5, 6], [7, 8]] \<and>
   concat (log_split [1, 2, 3, 4, 5, 6, 7, 8 :: nat]) = [1, 2, 3, 4, 5, 6, 7, 8] \<and>
   Suc 2 < length (log_split [1, 2, 3, 4, 5, 6, 7, 8 :: nat]) \<and>
   length (log_split [1, 2, 3, 4, 5, 6, 7, 8 :: nat] ! 2) = Suc 2 \<and>
   length (log_split [1, 2, 3, 4, 5, 6, 7, 8 :: nat] ! 3) = 2"
  using log_split_chunks[of "[1, 2, 3, 4, 5, 6, 7, 8 :: nat]"]
  by (simp add: log_split_def)

end
